theory Spec2Isabelle
  imports Complex_Main
begin

section \<open>Data model of main.py\<close>

text \<open>
  Python integers are modelled as \<open>int\<close>, Python floats (template scores, the
  configured thresholds, the quotient \<open>current_area / starting_area\<close> and the
  readings of \<open>time.time()\<close>) as \<open>real\<close>: the program only compares them, and the
  comparisons are the ones written in the source, on the numbers the floats stand for
  (the rounding of the quotient and of the literal \<open>0.35\<close> is not modelled). The
  OpenCV and NumPy computations on pixels (segmentation, template matching, contour
  filtering, dominant colour) are parameters of the model, collected in the record
  \<open>vision\<close>; an OpenCV call that raises \<open>cv2.error\<close> is the value \<open>Inl Cv2Error\<close>,
  and since nothing in the program catches it, it ends the main loop. Logging and
  \<open>time.sleep\<close> are left out. Simulated input is a list of
  \<open>event\<close>s. Colour components come from 8-bit images, so the conversion to
  \<open>uint8\<close> in \<open>_update_number_boxes\<close> changes nothing and is left out.
\<close>

subsection \<open>Region, BoxRecord, images\<close>

record Region =
  left :: int
  top' :: int
  width :: int
  height :: int

definition right :: "Region \<Rightarrow> int" where
  "right r = left r + width r"

definition bottom :: "Region \<Rightarrow> int" where
  "bottom r = top' r + height r"

type_synonym rgb = "int \<times> int \<times> int"

record BoxRecord =
  center :: "int \<times> int"
  color :: rgb
  bounds :: "int \<times> int \<times> int \<times> int"

text \<open>The dictionaries \<open>{"digit": d, "box": (x, y, w, h)}\<close> of the two detectors.\<close>

record detection =
  digit :: int
  box :: "int \<times> int \<times> int \<times> int"

text \<open>
  A frame is a list of rows of pixels. \<open>py_slice a b xs\<close> is Python's \<open>xs[a:b]\<close>:
  a negative bound counts from the end, every bound is clamped to the length and an
  empty range gives the empty list; nothing is raised. \<open>crop r frame\<close> is the NumPy
  expression \<open>frame[r.top : r.bottom, r.left : r.right]\<close>.
\<close>

type_synonym 'p image = "'p list list"

definition slice_index :: "nat \<Rightarrow> int \<Rightarrow> nat" where
  "slice_index n i = (if i < 0 then nat (max (i + int n) 0) else min (nat i) n)"

definition py_slice :: "int \<Rightarrow> int \<Rightarrow> 'a list \<Rightarrow> 'a list" where
  "py_slice a b xs =
     (let n = length xs; lo = slice_index n a; hi = slice_index n b
      in take (hi - lo) (drop lo xs))"

definition crop :: "Region \<Rightarrow> 'p image \<Rightarrow> 'p image" where
  "crop r frame = map (py_slice (left r) (right r)) (py_slice (top' r) (bottom r) frame)"

subsection \<open>Simulated input and the vision collaborators\<close>

datatype event =
  KeyPress int        \<comment> \<open>\<open>press_key(vk_code)\<close>\<close>
  | Click int int     \<comment> \<open>\<open>_click_absolute(x, y)\<close>: move the cursor, button down, button up\<close>
  | KeyUpE            \<comment> \<open>\<open>pydirectinput.keyUp("e")\<close>\<close>

definition VK_1 :: int where "VK_1 = 0x31"
definition VK_2 :: int where "VK_2 = 0x32"
definition VK_3 :: int where "VK_3 = 0x33"
definition VK_4 :: int where "VK_4 = 0x34"

definition vk_keys :: "int list" where
  "vk_keys = [VK_1, VK_2, VK_3, VK_4]"

datatype error = Cv2Error

text \<open>
  \<open>cv2.cvtColor\<close> raises \<open>cv2.error\<close> on an image without pixels (a NumPy array of
  size 0) and converts every other image. The colours of the pixels are not modelled, so
  the converted image is the image itself.
\<close>

definition cvtColor :: "'p image \<Rightarrow> error + 'p image" where
  "cvtColor img = (if concat img = [] then Inl Cv2Error else Inr img)"

text \<open>
  The two collaborators that call \<open>cv2.matchTemplate\<close> may raise as well (it refuses an
  image smaller than the template; the templates are assets that the source only
  loads).
\<close>

record 'p vision =
  bar_area :: "'p image \<Rightarrow> int"
    \<comment> \<open>\<open>NewMiniGame.run\<close>, lines 158-164: the filled contour area of the zone image\<close>
  template_scores :: "'p image \<Rightarrow> error + real list"
    \<comment> \<open>\<open>_detect_number\<close>, lines 116-123: \<open>max_val\<close> of each template, in order\<close>
  process_frame_number :: "'p image \<Rightarrow> error + detection list"
  process_frame_boxes :: "'p image \<Rightarrow> detection list"
  most_common_rgb_in_region :: "'p image \<Rightarrow> int \<Rightarrow> int \<Rightarrow> int \<Rightarrow> int \<Rightarrow> rgb"

section \<open>NewMiniGame: the bar recognizer\<close>

datatype bar_state = RESET | FOUND | INTERCEPTION

record mini_cfg =
  zone :: Region
  number_zone :: Region
  number_conf :: real
  compare_dif :: real
  new_area_diff :: real

record NewMiniGame =
  state :: bar_state
  starting_area :: int
  prev_area :: int
  number :: int
  number_reset_flag :: bool

definition NewMiniGame_init :: NewMiniGame where
  "NewMiniGame_init =
     \<lparr>state = RESET, starting_area = 0, prev_area = 0, number = 0, number_reset_flag = False\<rparr>"

definition crop_zone :: "mini_cfg \<Rightarrow> 'p image \<Rightarrow> 'p image" where
  "crop_zone cfg frame = crop (zone cfg) frame"

subsection \<open>\<open>_detect_number\<close>\<close>

text \<open>
  The loop over \<open>enumerate(self.templates)\<close>, on the list of the templates' \<open>max_val\<close>;
  \<open>idx\<close> is the index of the head of the list.
\<close>

fun match_templates :: "real \<Rightarrow> int \<Rightarrow> real list \<Rightarrow> real \<times> int \<Rightarrow> real \<times> int" where
  "match_templates conf idx [] (best_score, detected) = (best_score, detected)"
| "match_templates conf idx (max_val # rest) (best_score, detected) =
     (if max_val \<ge> conf \<and> max_val > best_score
      then match_templates conf (idx + 1) rest (max_val, idx + 1)
      else match_templates conf (idx + 1) rest (best_score, detected))"

fun all_scores_from :: "int \<Rightarrow> real list \<Rightarrow> (int \<times> real) list" where
  "all_scores_from idx [] = []"
| "all_scores_from idx (max_val # rest) = (idx + 1, max_val) # all_scores_from (idx + 1) rest"

text \<open>Python's \<open>max(xs, key=lambda x: x[1])\<close> on \<open>b # xs\<close>: the first maximal element.\<close>

fun max_by_score :: "int \<times> real \<Rightarrow> (int \<times> real) list \<Rightarrow> int \<times> real" where
  "max_by_score b [] = b"
| "max_by_score b (x # xs) = (if snd x > snd b then max_by_score x xs else max_by_score b xs)"

text \<open>Lines 117-135: the pair \<open>(detected, best_score)\<close> after the fallback.\<close>

definition select_number :: "real \<Rightarrow> real list \<Rightarrow> int \<times> real" where
  "select_number conf max_vals =
     (case match_templates conf 0 max_vals (- 1, 0) of
        (best_score, detected) \<Rightarrow>
          (case all_scores_from 0 max_vals of
             [] \<Rightarrow> (detected, best_score)
           | x # xs \<Rightarrow>
               if detected = 0 then
                 (case max_by_score x xs of
                    (best_idx, best_val) \<Rightarrow>
                      if best_val \<ge> 0.35 then (best_idx, best_val) else (detected, best_score))
               else (detected, best_score)))"

text \<open>Lines 137-153: the update of \<open>self.number\<close> and \<open>self.number_reset_flag\<close>.\<close>

definition detect_number :: "mini_cfg \<Rightarrow> real list \<Rightarrow> NewMiniGame \<Rightarrow> NewMiniGame" where
  "detect_number cfg max_vals s =
     (let detected = fst (select_number (number_conf cfg) max_vals);
          s1 = (if number_reset_flag s then s\<lparr>number := 0, number_reset_flag := False\<rparr> else s)
      in if detected \<noteq> 0 then s1\<lparr>number := detected\<rparr> else s1)"

subsection \<open>\<open>NewMiniGame.run\<close>\<close>

text \<open>What one frame shows to the bar recognizer: the segmented area and the scores.\<close>

record bar_frame =
  current_area :: int
  max_vals :: "real list"

text \<open>Lines 166-172: numeral detection runs only on a frame with an active area.\<close>

definition run_detect :: "mini_cfg \<Rightarrow> bar_frame \<Rightarrow> NewMiniGame \<Rightarrow> NewMiniGame" where
  "run_detect cfg fr s =
     (if current_area fr > 0 then detect_number cfg (max_vals fr) s else s)"

text \<open>Lines 174-202: the \<open>if\<close>/\<open>elif\<close> chain, then \<open>self.prev_area = current_area\<close>.\<close>

definition run_transition :: "mini_cfg \<Rightarrow> int \<Rightarrow> NewMiniGame \<Rightarrow> NewMiniGame" where
  "run_transition cfg area s =
     (let s' =
        (if state s = FOUND \<and> starting_area s \<noteq> 0 then
           (if real_of_int area / real_of_int (starting_area s) \<le> compare_dif cfg then
              (if number s > 0 then s\<lparr>state := INTERCEPTION\<rparr> else s)
            else s)
         else if state s = RESET \<and> area > 0 then
           s\<lparr>state := FOUND, starting_area := area, number_reset_flag := True\<rparr>
         else if area = 0 then
           s\<lparr>state := RESET, starting_area := 0, number := 0\<rparr>
         else if area \<noteq> 0 \<and> state s = FOUND \<and> starting_area s \<noteq> 0
                 \<and> real_of_int area / real_of_int (starting_area s) \<ge> new_area_diff cfg then
           s\<lparr>starting_area := area\<rparr>
         else s)
      in s'\<lparr>prev_area := area\<rparr>)"

text \<open>Lines 204-218: the key press, and the value \<open>run\<close> returns.\<close>

definition run_action :: "NewMiniGame \<Rightarrow> NewMiniGame \<times> event list \<times> bool" where
  "run_action s =
     (if state s = INTERCEPTION \<and> number s \<noteq> 0 then
        (let vk_idx = max 0 (min (int (length vk_keys) - 1) (number s - 1))
         in (s\<lparr>state := RESET, number := 0, number_reset_flag := False,
               prev_area := 0, starting_area := 0\<rparr>,
             [KeyPress (vk_keys ! nat vk_idx)], True))
      else (s, [], state s \<noteq> RESET))"

definition run_observed :: "mini_cfg \<Rightarrow> bar_frame \<Rightarrow> NewMiniGame \<Rightarrow> NewMiniGame \<times> event list \<times> bool" where
  "run_observed cfg fr s = run_action (run_transition cfg (current_area fr) (run_detect cfg fr s))"

text \<open>
  Lines 156-172 up to the call of \<open>cv2.matchTemplate\<close>: what \<open>run\<close> reads from the
  frame, or the error of a colour conversion or of the template matching. The scores
  are computed only on a frame with an active area. All of it happens before \<open>run\<close>
  writes any field, so an error leaves the recognizer as it was.
\<close>

definition observe_bar :: "mini_cfg \<Rightarrow> 'p vision \<Rightarrow> 'p image \<Rightarrow> error + bar_frame" where
  "observe_bar cfg V frame =
     (case cvtColor (crop_zone cfg frame) of
        Inl e \<Rightarrow> Inl e
      | Inr zone_image \<Rightarrow>
          (let area = bar_area V zone_image in
           if area > 0 then
             (case cvtColor (crop (number_zone cfg) zone_image) of
                Inl e \<Rightarrow> Inl e
              | Inr roi \<Rightarrow>
                  (case template_scores V roi of
                     Inl e \<Rightarrow> Inl e
                   | Inr vals \<Rightarrow> Inr \<lparr>current_area = area, max_vals = vals\<rparr>))
           else Inr \<lparr>current_area = area, max_vals = []\<rparr>))"

definition NewMiniGame_run ::
  "mini_cfg \<Rightarrow> 'p vision \<Rightarrow> 'p image \<Rightarrow> NewMiniGame
     \<Rightarrow> error + NewMiniGame \<times> event list \<times> bool" where
  "NewMiniGame_run cfg V frame s =
     (case observe_bar cfg V frame of
        Inl e \<Rightarrow> Inl e
      | Inr fr \<Rightarrow> Inr (run_observed cfg fr s))"

text \<open>A sequence of frames, each run on the state the previous one left.\<close>

fun run_frames :: "mini_cfg \<Rightarrow> bar_frame list \<Rightarrow> NewMiniGame \<Rightarrow> NewMiniGame \<times> event list" where
  "run_frames cfg [] s = (s, [])"
| "run_frames cfg (fr # frs) s =
     (case run_observed cfg fr s of
        (s1, evs, _) \<Rightarrow> (case run_frames cfg frs s1 of (s2, evs2) \<Rightarrow> (s2, evs @ evs2)))"

section \<open>FivemAutoFish: the box tracker and the main loop\<close>

record global_cfg =
  mini :: mini_cfg
  region :: Region
  last_no_detection_delay :: real
  cs_background_color_lower :: rgb
  cs_background_color_upper :: rgb
  cs_success_color :: rgb

record FivemAutoFish =
  new_fish_mini :: NewMiniGame
  BoxNumber1 :: "BoxRecord option"
  BoxNumber2 :: "BoxRecord option"
  BoxNumber3 :: "BoxRecord option"
  went_to_none :: bool
  last_no_detection :: real

subsection \<open>Frame capture\<close>

text \<open>
  \<open>camera.get_latest_frame()\<close> is an input of the model: \<open>None\<close> when the camera has
  no frame.
\<close>

definition capture_screen_full :: "'p image option \<Rightarrow> 'p image option" where
  "capture_screen_full latest = (case latest of None \<Rightarrow> None | Some frame \<Rightarrow> Some frame)"

definition capture_screen :: "global_cfg \<Rightarrow> 'p image option \<Rightarrow> 'p image option" where
  "capture_screen cfg latest =
     (case capture_screen_full latest of
        None \<Rightarrow> None
      | Some frame \<Rightarrow> Some (crop (region cfg) frame))"

subsection \<open>The three slots\<close>

definition get_box_by_digit :: "int \<Rightarrow> FivemAutoFish \<Rightarrow> BoxRecord option" where
  "get_box_by_digit d s =
     (if d = 1 then BoxNumber1 s else if d = 2 then BoxNumber2 s
      else if d = 3 then BoxNumber3 s else None)"

definition set_box_by_digit :: "int \<Rightarrow> BoxRecord \<Rightarrow> FivemAutoFish \<Rightarrow> FivemAutoFish" where
  "set_box_by_digit d r s =
     (if d = 1 then s\<lparr>BoxNumber1 := Some r\<rparr>
      else if d = 2 then s\<lparr>BoxNumber2 := Some r\<rparr>
      else if d = 3 then s\<lparr>BoxNumber3 := Some r\<rparr>
      else s)"

text \<open>
  \<open>int(w / 2 + x)\<close> on integers: the quotient \<open>(w + 2 * x) / 2\<close> truncated towards
  zero.
\<close>

definition int_half_plus :: "int \<Rightarrow> int \<Rightarrow> int" where
  "int_half_plus w x =
     (let t = w + 2 * x in if t \<ge> 0 then t div 2 else - ((- t) div 2))"

definition in_background :: "global_cfg \<Rightarrow> rgb \<Rightarrow> bool" where
  "in_background cfg c =
     (case c of (r, g, b) \<Rightarrow>
        (case cs_background_color_lower cfg of (lr, lg, lb) \<Rightarrow>
           (case cs_background_color_upper cfg of (ur, ug, ub) \<Rightarrow>
              r \<ge> lr \<and> g \<ge> lg \<and> b \<ge> lb \<and> r \<le> ur \<and> g \<le> ug \<and> b \<le> ub)))"

text \<open>The body of the loop of \<open>_update_number_boxes\<close>, and the loop.\<close>

definition update_number_box ::
  "global_cfg \<Rightarrow> (int \<Rightarrow> int \<Rightarrow> int \<Rightarrow> int \<Rightarrow> rgb) \<Rightarrow> detection \<Rightarrow> FivemAutoFish \<Rightarrow> FivemAutoFish" where
  "update_number_box cfg mc det s =
     (case box det of (x, y, w, h) \<Rightarrow>
        (let x2 = x + w; y2 = y + h;
             col0 = mc x y x2 y2;
             col = (if in_background cfg col0
                    then (case get_box_by_digit (digit det) s of
                            Some cached \<Rightarrow> color cached
                          | None \<Rightarrow> col0)
                    else col0);
             rec = \<lparr>center = (int_half_plus w x, int_half_plus h y), color = col,
                    bounds = (x, y, x2, y2)\<rparr>
         in set_box_by_digit (digit det) rec s))"

fun update_number_boxes ::
  "global_cfg \<Rightarrow> (int \<Rightarrow> int \<Rightarrow> int \<Rightarrow> int \<Rightarrow> rgb) \<Rightarrow> detection list \<Rightarrow> FivemAutoFish \<Rightarrow> FivemAutoFish" where
  "update_number_boxes cfg mc [] s = s"
| "update_number_boxes cfg mc (det # dets) s =
     update_number_boxes cfg mc dets (update_number_box cfg mc det s)"

text \<open>
  \<open>_find_matching_box\<close> returns the record object of the first slot whose colour is
  equal to the given one; the caller then assigns to that object's fields. Each slot
  holds an object of its own (\<open>_set_box_by_digit\<close> is the only writer, always with a
  fresh \<open>BoxRecord\<close>), so the reference is modelled by the number of its slot.
\<close>

definition has_color :: "rgb \<Rightarrow> BoxRecord option \<Rightarrow> bool" where
  "has_color c slot = (case slot of None \<Rightarrow> False | Some r \<Rightarrow> color r = c)"

definition find_matching_box :: "rgb \<Rightarrow> FivemAutoFish \<Rightarrow> nat option" where
  "find_matching_box c s =
     (if has_color c (BoxNumber1 s) then Some 1
      else if has_color c (BoxNumber2 s) then Some 2
      else if has_color c (BoxNumber3 s) then Some 3
      else None)"

definition move_record :: "int \<times> int \<Rightarrow> int \<times> int \<times> int \<times> int \<Rightarrow> BoxRecord option \<Rightarrow> BoxRecord option" where
  "move_record c b slot = map_option (\<lambda>r. r\<lparr>center := c, bounds := b\<rparr>) slot"

definition refresh_slot ::
  "nat \<Rightarrow> int \<times> int \<Rightarrow> int \<times> int \<times> int \<times> int \<Rightarrow> FivemAutoFish \<Rightarrow> FivemAutoFish" where
  "refresh_slot k c b s =
     (if k = 1 then s\<lparr>BoxNumber1 := move_record c b (BoxNumber1 s)\<rparr>
      else if k = 2 then s\<lparr>BoxNumber2 := move_record c b (BoxNumber2 s)\<rparr>
      else s\<lparr>BoxNumber3 := move_record c b (BoxNumber3 s)\<rparr>)"

subsection \<open>\<open>click_box\<close>, \<open>_click_fail_safe\<close>, \<open>_handle_boxes\<close>\<close>

definition click_box :: "global_cfg \<Rightarrow> BoxRecord \<Rightarrow> event list" where
  "click_box cfg r =
     [Click (left (region cfg) + fst (center r)) (top' (region cfg) + snd (center r))]"

fun click_fail_safe :: "global_cfg \<Rightarrow> detection list \<Rightarrow> event list" where
  "click_fail_safe cfg [] = []"
| "click_fail_safe cfg (b # bs) =
     (case box b of (x, y, w, h) \<Rightarrow>
        Click (left (region cfg) + x + w div 2) (top' (region cfg) + y + h div 2)
          # click_fail_safe cfg bs)"

text \<open>
  The loop of \<open>_handle_boxes\<close> (lines 443-457), on the triple
  \<open>(success_count, clickable, self)\<close>.
\<close>

fun scan_boxes ::
  "global_cfg \<Rightarrow> (int \<Rightarrow> int \<Rightarrow> int \<Rightarrow> int \<Rightarrow> rgb) \<Rightarrow> detection list
     \<Rightarrow> nat \<times> bool \<times> FivemAutoFish \<Rightarrow> nat \<times> bool \<times> FivemAutoFish" where
  "scan_boxes cfg mc [] acc = acc"
| "scan_boxes cfg mc (b # bs) (success_count, clickable, s) =
     (case box b of (x, y, w, h) \<Rightarrow>
        (let x2 = x + w; y2 = y + h; col = mc x y x2 y2
         in if col = cs_success_color cfg
            then scan_boxes cfg mc bs (success_count + 1, clickable, s)
            else scan_boxes cfg mc bs
                   (success_count, True,
                    (case find_matching_box col s of
                       Some k \<Rightarrow>
                         refresh_slot k (int_half_plus w x, int_half_plus h y) (x, y, x2, y2) s
                     | None \<Rightarrow> s))))"

definition handle_boxes ::
  "global_cfg \<Rightarrow> (int \<Rightarrow> int \<Rightarrow> int \<Rightarrow> int \<Rightarrow> rgb) \<Rightarrow> detection list \<Rightarrow> FivemAutoFish
     \<Rightarrow> FivemAutoFish \<times> event list \<times> bool" where
  "handle_boxes cfg mc boxes s =
     (case scan_boxes cfg mc boxes (0, False, s) of
        (success_count, clickable, s') \<Rightarrow>
          if \<not> clickable then (s', [], False)
          else
            (let target =
               (if success_count = 0 then BoxNumber1 s'
                else if success_count = 1 then BoxNumber2 s'
                else if success_count = 2 then BoxNumber3 s'
                else None)
             in (case target of
                   Some r \<Rightarrow> (s', click_box cfg r, True)
                 | None \<Rightarrow> (s', [], False))))"

subsection \<open>One cycle of \<open>FivemAutoFish.run\<close>\<close>

text \<open>
  What a cycle reads from outside: the pause flag (another thread toggles it), the
  camera's latest frame at the two places the cycle asks for it, and the value of
  \<open>time.time()\<close> (read at most once in a cycle: in \<open>_reset_no_detection\<close> or at
  line 519).
\<close>

record 'p cycle_input =
  pause :: bool
  latest_frame1 :: "'p image option"
  latest_frame2 :: "'p image option"
  clock :: real

datatype outcome =
  Paused | FrameUnavailable | BarActive | NoDetections | NoBoxes
  | ActionTaken | FailSafeFired | NoAction
  | Raised error    \<comment> \<open>an uncaught exception: the loop and the program end\<close>

definition reset_no_detection :: "real \<Rightarrow> FivemAutoFish \<Rightarrow> FivemAutoFish" where
  "reset_no_detection now s = s\<lparr>went_to_none := False, last_no_detection := now\<rparr>"

text \<open>
  Lines 497-522: the rest of a cycle once \<open>capture_screen\<close> has returned an image.
  \<open>keys\<close> is what the bar recognizer has pressed in this cycle.
\<close>

definition process_region_frame ::
  "global_cfg \<Rightarrow> 'p vision \<Rightarrow> 'p image \<Rightarrow> real \<Rightarrow> event list \<Rightarrow> FivemAutoFish
     \<Rightarrow> FivemAutoFish \<times> event list \<times> outcome" where
  "process_region_frame cfg V region_frame now keys s1 =
     (case cvtColor region_frame of
        Inl e \<Rightarrow> (s1, keys, Raised e)
      | Inr gray \<Rightarrow>
          (case (if went_to_none s1 then Inr [] else process_frame_number V gray) of
             Inl e \<Rightarrow> (s1, keys, Raised e)
           | Inr detections \<Rightarrow>
               (let mc = most_common_rgb_in_region V region_frame;
                    s2 = (if detections \<noteq> []
                          then (update_number_boxes cfg mc detections s1)
                                 \<lparr>went_to_none := False\<rparr>
                          else s1)
                in if detections \<noteq> [] \<or> went_to_none s2 then
                     (let boxes = process_frame_boxes V gray in
                      if boxes = [] then (reset_no_detection now s2, keys, NoBoxes)
                      else
                        (case handle_boxes cfg mc boxes s2 of
                           (s3, clicks, action_taken) \<Rightarrow>
                             if action_taken then
                               (s3\<lparr>went_to_none := True\<rparr>, keys @ clicks, ActionTaken)
                             else if now - last_no_detection s3
                                       > last_no_detection_delay cfg then
                               (s3\<lparr>last_no_detection := now\<rparr>,
                                keys @ clicks @ click_fail_safe cfg boxes,
                                FailSafeFired)
                             else (s3, keys @ clicks, NoAction)))
                   else (reset_no_detection now s2, keys, NoDetections))))"

text \<open>Lines 478-495, then the rest of the cycle.\<close>

definition cycle ::
  "global_cfg \<Rightarrow> 'p vision \<Rightarrow> 'p cycle_input \<Rightarrow> FivemAutoFish
     \<Rightarrow> FivemAutoFish \<times> event list \<times> outcome" where
  "cycle cfg V i s =
     (if pause i then (s, [KeyUpE], Paused)
      else
        (case capture_screen_full (latest_frame1 i) of
           None \<Rightarrow> (s, [], FrameUnavailable)
         | Some full_frame \<Rightarrow>
             (case NewMiniGame_run (mini cfg) V full_frame (new_fish_mini s) of
                Inl e \<Rightarrow> (s, [], Raised e)
              | Inr (m, keys, active) \<Rightarrow>
                  (let s1 = s\<lparr>new_fish_mini := m\<rparr> in
                   if active then (s1, keys, BarActive)
                   else
                     (case capture_screen cfg (latest_frame2 i) of
                        None \<Rightarrow> (s1, keys, FrameUnavailable)
                      | Some region_frame \<Rightarrow>
                          process_region_frame cfg V region_frame (clock i) keys s1)))))"

text \<open>
  The loop of \<open>run\<close> ends only by an exception. \<open>run_cycles\<close> runs one cycle for each
  element of the list of what the successive cycles read, up to the first cycle that
  raises, and returns what each of these cycles did: the first cycles of a run of any
  length.
\<close>

fun run_cycles ::
  "global_cfg \<Rightarrow> 'p vision \<Rightarrow> 'p cycle_input list \<Rightarrow> FivemAutoFish
     \<Rightarrow> (event list \<times> outcome) list" where
  "run_cycles cfg V [] s = []"
| "run_cycles cfg V (i # is) s =
     (case cycle cfg V i s of
        (s', evs, out) \<Rightarrow>
          (evs, out) # (case out of Raised e \<Rightarrow> [] | _ \<Rightarrow> run_cycles cfg V is s'))"

section \<open>Example configuration, states and frames\<close>

text \<open>
  A configuration with the spec's scenario value \<open>compare_dif = 0.4\<close>, and the states
  and frames at which the theorems below are evaluated.
\<close>

definition example_mini_cfg :: mini_cfg where
  "example_mini_cfg =
     \<lparr>zone = \<lparr>left = 0, top' = 0, width = 4, height = 4\<rparr>,
      number_zone = \<lparr>left = 0, top' = 0, width = 2, height = 2\<rparr>,
      number_conf = 0.8, compare_dif = 0.4, new_area_diff = 1.2\<rparr>"

definition found_no_number :: NewMiniGame where
  "found_no_number =
     \<lparr>state = FOUND, starting_area = 120, prev_area = 118, number = 0,
      number_reset_flag = False\<rparr>"

definition intercepting_two :: NewMiniGame where
  "intercepting_two =
     \<lparr>state = INTERCEPTION, starting_area = 120, prev_area = 40, number = 2,
      number_reset_flag = False\<rparr>"

definition found_two_pending_reset :: NewMiniGame where
  "found_two_pending_reset =
     \<lparr>state = FOUND, starting_area = 120, prev_area = 120, number = 2,
      number_reset_flag = True\<rparr>"

definition frame_no_numeral :: "int \<Rightarrow> bar_frame" where
  "frame_no_numeral a = \<lparr>current_area = a, max_vals = [0.1, 0.2, 0.1]\<rparr>"

definition frame_numeral_two :: "int \<Rightarrow> bar_frame" where
  "frame_numeral_two a = \<lparr>current_area = a, max_vals = [0.1, 0.9, 0.1]\<rparr>"


section \<open>Vocabulary of the claims about the box tracker\<close>

text \<open>
  The dominant colour \<open>_handle_boxes\<close> computes for a candidate (lines 444-446), the
  number of candidates whose colour is the success colour, and what it means that a
  cycle clicks the record of a slot: one click at the record's centre moved by the
  region's corner and the result True, or no click and the result False when the slot
  is empty.
\<close>

definition box_color :: "(int \<Rightarrow> int \<Rightarrow> int \<Rightarrow> int \<Rightarrow> rgb) \<Rightarrow> detection \<Rightarrow> rgb" where
  "box_color mc b = (case box b of (x, y, w, h) \<Rightarrow> mc x y (x + w) (y + h))"

definition count_success ::
  "global_cfg \<Rightarrow> (int \<Rightarrow> int \<Rightarrow> int \<Rightarrow> int \<Rightarrow> rgb) \<Rightarrow> detection list \<Rightarrow> nat" where
  "count_success cfg mc boxes =
     length (filter (\<lambda>b. box_color mc b = cs_success_color cfg) boxes)"

definition clicks_record :: "global_cfg \<Rightarrow> BoxRecord option \<Rightarrow> event list \<times> bool \<Rightarrow> bool" where
  "clicks_record cfg slot res =
     (case slot of
        Some r \<Rightarrow>
          res = ([Click (left (region cfg) + fst (center r)) (top' (region cfg) + snd (center r))],
                 True)
      | None \<Rightarrow> res = ([], False))"

definition example_cfg :: global_cfg where
  "example_cfg =
     \<lparr>mini = example_mini_cfg,
      region = \<lparr>left = 1000, top' = 500, width = 300, height = 100\<rparr>,
      last_no_detection_delay = 1,
      cs_background_color_lower = (0, 0, 0),
      cs_background_color_upper = (5, 5, 5),
      cs_success_color = (0, 255, 0)\<rparr>"

text \<open>
  Three candidates side by side; the dominant colour of the middle one is red, that of
  the two others the success colour.
\<close>

definition example_boxes :: "detection list" where
  "example_boxes =
     [\<lparr>digit = 0, box = (0, 0, 20, 20)\<rparr>, \<lparr>digit = 0, box = (50, 0, 20, 20)\<rparr>,
      \<lparr>digit = 0, box = (100, 0, 20, 20)\<rparr>]"

definition example_dominant :: "int \<Rightarrow> int \<Rightarrow> int \<Rightarrow> int \<Rightarrow> rgb" where
  "example_dominant x1 y1 x2 y2 = (if x1 = 50 then (255, 0, 0) else (0, 255, 0))"

definition example_tracker :: FivemAutoFish where
  "example_tracker =
     \<lparr>new_fish_mini = NewMiniGame_init,
      BoxNumber1 = Some \<lparr>center = (8, 9), color = (200, 200, 0), bounds = (0, 0, 16, 18)\<rparr>,
      BoxNumber2 = Some \<lparr>center = (58, 9), color = (255, 0, 0), bounds = (50, 0, 66, 18)\<rparr>,
      BoxNumber3 = Some \<lparr>center = (108, 9), color = (0, 0, 200), bounds = (100, 0, 116, 18)\<rparr>,
      went_to_none = False, last_no_detection = 0\<rparr>"

definition empty_tracker :: FivemAutoFish where
  "empty_tracker =
     \<lparr>new_fish_mini = NewMiniGame_init, BoxNumber1 = None, BoxNumber2 = None,
      BoxNumber3 = None, went_to_none = False, last_no_detection = 0\<rparr>"






section \<open>Binary floating-point scores\<close>

text \<open>
  The scores \<open>cv2.minMaxLoc\<close> returns are binary floating-point numbers: an integer
  mantissa scaled by a power of two. \<open>float_value (m, k)\<close> is the number \<open>m / 2^k\<close>
  (a float with a positive exponent is an integer, \<open>k = 0\<close>).
\<close>

definition float_value :: "int \<times> nat \<Rightarrow> real" where
  "float_value p = real_of_int (fst p) / 2 ^ snd p"

section \<open>Numeral selection and stickiness\<close>

lemmas bar_defs =
  run_observed_def run_action_def run_transition_def run_detect_def detect_number_def
  select_number_def vk_keys_def VK_1_def VK_2_def VK_3_def VK_4_def

lemmas example_defs =
  example_mini_cfg_def NewMiniGame_init_def found_no_number_def intercepting_two_def
  frame_no_numeral_def frame_numeral_two_def

lemma match_templates_none:
  "\<forall>v \<in> set vs. v < conf \<Longrightarrow> match_templates conf idx vs (b, d) = (b, d)"
  by (induction vs arbitrary: idx) auto

lemma max_by_score_mem: "max_by_score b xs \<in> set (b # xs)"
  by (induction xs arbitrary: b) auto

lemma max_by_score_ge: "y \<in> set (b # xs) \<Longrightarrow> snd y \<le> snd (max_by_score b xs)"
proof (induction xs arbitrary: b y)
  case Nil
  then show ?case by simp
next
  case (Cons x xs)
  have b: "snd b \<le> snd (max_by_score b xs)" and x: "snd x \<le> snd (max_by_score x xs)"
    using Cons.IH[of b b] Cons.IH[of x x] by simp_all
  show ?case
  proof (cases "snd x > snd b")
    case True
    then show ?thesis using Cons.prems Cons.IH[of y x] x b by auto
  next
    case False
    then show ?thesis using Cons.prems Cons.IH[of y b] b x by auto
  qed
qed

lemma all_scores_from_snd: "map snd (all_scores_from idx vs) = vs"
  by (induction vs arbitrary: idx) auto

lemma all_scores_from_length: "length (all_scores_from idx vs) = length vs"
  by (induction vs arbitrary: idx) auto

lemma all_scores_from_nth:
  "k < length vs \<Longrightarrow> all_scores_from idx vs ! k = (idx + 1 + int k, vs ! k)"
proof (induction vs arbitrary: idx k)
  case Nil
  then show ?case by simp
next
  case (Cons v vs)
  then show ?case by (cases k) auto
qed

lemma all_scores_from_index:
  "(i, v) \<in> set (all_scores_from idx vs) \<Longrightarrow>
     idx < i \<and> i \<le> idx + int (length vs) \<and> vs ! nat (i - idx - 1) = v"
proof (induction vs arbitrary: idx)
  case Nil
  then show ?case by simp
next
  case (Cons a vs)
  show ?case
  proof (cases "(i, v) = (idx + 1, a)")
    case True
    then show ?thesis by simp
  next
    case False
    then have "(i, v) \<in> set (all_scores_from (idx + 1) vs)" using Cons.prems by auto
    from Cons.IH[OF this]
    have h: "idx + 1 < i" "i \<le> idx + 1 + int (length vs)" "vs ! nat (i - (idx + 1) - 1) = v"
      by auto
    have "nat (i - idx - 1) = Suc (nat (i - (idx + 1) - 1))" using h(1) by arith
    then show ?thesis using h by simp
  qed
qed

text \<open>With no score at the confidence threshold or at 0.35, nothing is detected.\<close>

lemma select_number_none:
  assumes "\<forall>v \<in> set vals. v < conf \<and> v < 0.35"
  shows "fst (select_number conf vals) = 0"
proof (cases "all_scores_from 0 vals")
  case Nil
  then show ?thesis using assms by (simp add: select_number_def match_templates_none)
next
  case (Cons x xs)
  have "snd (max_by_score x xs) \<in> snd ` set (all_scores_from 0 vals)"
    using max_by_score_mem[of x xs] Cons by (metis imageI)
  then have "snd (max_by_score x xs) \<in> set vals"
    using all_scores_from_snd[of 0 vals] by (metis set_map)
  then have "snd (max_by_score x xs) < 0.35" using assms by blast
  then show ?thesis using assms Cons
    by (auto simp: select_number_def match_templates_none split: prod.splits)
qed

text \<open>
  The loop either leaves its accumulator as it was, no score being at the threshold and
  above the best so far, or it ends on the first score that is maximal among those at
  the threshold.
\<close>

lemma match_templates_cases:
  "match_templates conf idx vs (b, d) = (b', d') \<Longrightarrow>
     ((b', d') = (b, d) \<and> (\<forall>v \<in> set vs. \<not> (v \<ge> conf \<and> v > b)))
     \<or> (idx < d' \<and> d' \<le> idx + int (length vs) \<and> vs ! nat (d' - idx - 1) = b'
          \<and> b' \<ge> conf \<and> b' > b \<and> (\<forall>v \<in> set vs. v \<ge> conf \<longrightarrow> v \<le> b')
          \<and> (\<forall>j < nat (d' - idx - 1). vs ! j \<ge> conf \<longrightarrow> vs ! j < b'))"
proof (induction vs arbitrary: idx b d)
  case Nil
  then show ?case by simp
next
  case (Cons v vs)
  show ?case
  proof (cases "v \<ge> conf \<and> v > b")
    case True
    then have rec: "match_templates conf (idx + 1) vs (v, idx + 1) = (b', d')"
      using Cons.prems by simp
    from Cons.IH[OF rec] show ?thesis
    proof
      assume h: "(b', d') = (v, idx + 1) \<and> (\<forall>u \<in> set vs. \<not> (u \<ge> conf \<and> u > v))"
      then have "\<forall>u \<in> set (v # vs). u \<ge> conf \<longrightarrow> u \<le> b'" by auto
      then show ?thesis using h True by auto
    next
      assume h: "idx + 1 < d' \<and> d' \<le> idx + 1 + int (length vs)
          \<and> vs ! nat (d' - (idx + 1) - 1) = b'
          \<and> b' \<ge> conf \<and> b' > v \<and> (\<forall>u \<in> set vs. u \<ge> conf \<longrightarrow> u \<le> b')
          \<and> (\<forall>j < nat (d' - (idx + 1) - 1). vs ! j \<ge> conf \<longrightarrow> vs ! j < b')"
      have n: "nat (d' - idx - 1) = Suc (nat (d' - (idx + 1) - 1))" using h by arith
      have first: "\<forall>j < nat (d' - idx - 1). (v # vs) ! j \<ge> conf \<longrightarrow> (v # vs) ! j < b'"
      proof (intro allI impI)
        fix j assume "j < nat (d' - idx - 1)" "(v # vs) ! j \<ge> conf"
        then show "(v # vs) ! j < b'" using h n by (cases j) auto
      qed
      have "\<forall>u \<in> set (v # vs). u \<ge> conf \<longrightarrow> u \<le> b'" using h by auto
      then show ?thesis using h True n first by simp
    qed
  next
    case False
    then have rec: "match_templates conf (idx + 1) vs (b, d) = (b', d')"
      using Cons.prems by auto
    from Cons.IH[OF rec] show ?thesis
    proof
      assume "(b', d') = (b, d) \<and> (\<forall>u \<in> set vs. \<not> (u \<ge> conf \<and> u > b))"
      then show ?thesis using False by auto
    next
      assume h: "idx + 1 < d' \<and> d' \<le> idx + 1 + int (length vs)
          \<and> vs ! nat (d' - (idx + 1) - 1) = b'
          \<and> b' \<ge> conf \<and> b' > b \<and> (\<forall>u \<in> set vs. u \<ge> conf \<longrightarrow> u \<le> b')
          \<and> (\<forall>j < nat (d' - (idx + 1) - 1). vs ! j \<ge> conf \<longrightarrow> vs ! j < b')"
      have n: "nat (d' - idx - 1) = Suc (nat (d' - (idx + 1) - 1))" using h by arith
      have first: "\<forall>j < nat (d' - idx - 1). (v # vs) ! j \<ge> conf \<longrightarrow> (v # vs) ! j < b'"
      proof (intro allI impI)
        fix j assume "j < nat (d' - idx - 1)" "(v # vs) ! j \<ge> conf"
        then show "(v # vs) ! j < b'" using h n False by (cases j) auto
      qed
      have "\<forall>u \<in> set (v # vs). u \<ge> conf \<longrightarrow> u \<le> b'" using h False by auto
      then show ?thesis using h n first by simp
    qed
  qed
qed

lemma max_by_score_first:
  "max_by_score b xs = r \<Longrightarrow>
     (r = b \<and> (\<forall>y \<in> set xs. snd y \<le> snd b))
     \<or> (\<exists>k < length xs. r = xs ! k \<and> snd b < snd r \<and> (\<forall>j < k. snd (xs ! j) < snd r))"
proof (induction xs arbitrary: b)
  case Nil
  then show ?case by simp
next
  case (Cons x xs)
  show ?case
  proof (cases "snd x > snd b")
    case True
    then have rec: "max_by_score x xs = r" using Cons.prems by simp
    from Cons.IH[OF rec] show ?thesis
    proof
      assume "r = x \<and> (\<forall>y \<in> set xs. snd y \<le> snd x)"
      then have "0 < length (x # xs) \<and> r = (x # xs) ! 0 \<and> snd b < snd r
                 \<and> (\<forall>j < (0::nat). snd ((x # xs) ! j) < snd r)"
        using True by simp
      then show ?thesis by blast
    next
      assume "\<exists>k < length xs. r = xs ! k \<and> snd x < snd r \<and> (\<forall>j < k. snd (xs ! j) < snd r)"
      then obtain k where k: "k < length xs" "r = xs ! k" "snd x < snd r"
        "\<forall>j < k. snd (xs ! j) < snd r" by blast
      have "\<forall>j < Suc k. snd ((x # xs) ! j) < snd r"
      proof (intro allI impI)
        fix j assume "j < Suc k"
        then show "snd ((x # xs) ! j) < snd r" using k by (cases j) auto
      qed
      then have "Suc k < length (x # xs) \<and> r = (x # xs) ! Suc k \<and> snd b < snd r
                 \<and> (\<forall>j < Suc k. snd ((x # xs) ! j) < snd r)"
        using k True by simp
      then show ?thesis by blast
    qed
  next
    case False
    then have rec: "max_by_score b xs = r" using Cons.prems by simp
    from Cons.IH[OF rec] show ?thesis
    proof
      assume "r = b \<and> (\<forall>y \<in> set xs. snd y \<le> snd b)"
      then show ?thesis using False by auto
    next
      assume "\<exists>k < length xs. r = xs ! k \<and> snd b < snd r \<and> (\<forall>j < k. snd (xs ! j) < snd r)"
      then obtain k where k: "k < length xs" "r = xs ! k" "snd b < snd r"
        "\<forall>j < k. snd (xs ! j) < snd r" by blast
      have "\<forall>j < Suc k. snd ((x # xs) ! j) < snd r"
      proof (intro allI impI)
        fix j assume "j < Suc k"
        then show "snd ((x # xs) ! j) < snd r" using k False by (cases j) auto
      qed
      then have "Suc k < length (x # xs) \<and> r = (x # xs) ! Suc k \<and> snd b < snd r
                 \<and> (\<forall>j < Suc k. snd ((x # xs) ! j) < snd r)"
        using k by simp
      then show ?thesis by blast
    qed
  qed
qed

lemma max_all_scores_first:
  assumes "all_scores_from 0 vals = x # xs" and "max_by_score x xs = (bi, bv)"
  shows "\<forall>j < nat (bi - 1). vals ! j < bv"
proof (cases vals)
  case Nil
  then show ?thesis using assms by simp
next
  case (Cons a rest)
  then have x: "x = (1, a)" and xs: "xs = all_scores_from 1 rest" using assms(1) by simp_all
  from max_by_score_first[OF assms(2)] show ?thesis
  proof
    assume "(bi, bv) = x \<and> (\<forall>y \<in> set xs. snd y \<le> snd x)"
    then show ?thesis using x by simp
  next
    assume "\<exists>k < length xs. (bi, bv) = xs ! k \<and> snd x < snd (bi, bv)
              \<and> (\<forall>j < k. snd (xs ! j) < snd (bi, bv))"
    then obtain k where k: "k < length xs" "(bi, bv) = xs ! k" "snd x < bv"
      "\<forall>j < k. snd (xs ! j) < bv" by auto
    have len: "k < length rest" using k(1) xs by (simp add: all_scores_from_length)
    have bi: "bi = 2 + int k" using k(2) xs all_scores_from_nth[OF len, of 1] by simp
    show ?thesis
    proof (intro allI impI)
      fix j assume j: "j < nat (bi - 1)"
      show "vals ! j < bv"
      proof (cases j)
        case 0
        then show ?thesis using Cons x k(3) by simp
      next
        case (Suc j')
        then have j': "j' < k" using j bi by simp
        then have "snd (xs ! j') = rest ! j'"
          using xs len all_scores_from_nth[of j' rest 1] by simp
        moreover have "snd (xs ! j') < bv" using k(4) j' by blast
        ultimately show ?thesis using Suc Cons by simp
      qed
    qed
  qed
qed

lemma select_number_qualified:
  assumes conf: "\<forall>v \<in> set vals. conf \<le> v \<longrightarrow> - 1 < v" and ex: "\<exists>v \<in> set vals. conf \<le> v"
  shows "1 \<le> fst (select_number conf vals) \<and> fst (select_number conf vals) \<le> int (length vals)
     \<and> conf \<le> vals ! nat (fst (select_number conf vals) - 1)
     \<and> (\<forall>v \<in> set vals. conf \<le> v \<longrightarrow> v \<le> vals ! nat (fst (select_number conf vals) - 1))
     \<and> (\<forall>j < nat (fst (select_number conf vals) - 1). conf \<le> vals ! j \<longrightarrow>
            vals ! j < vals ! nat (fst (select_number conf vals) - 1))"
proof -
  obtain b' d' where m: "match_templates conf 0 vals (- 1, 0) = (b', d')"
    by (cases "match_templates conf 0 vals (- 1, 0)")
  from match_templates_cases[OF m] ex conf
  have h: "0 < d' \<and> d' \<le> 0 + int (length vals) \<and> vals ! nat (d' - 0 - 1) = b'
          \<and> b' \<ge> conf \<and> (\<forall>v \<in> set vals. v \<ge> conf \<longrightarrow> v \<le> b')
          \<and> (\<forall>j < nat (d' - 0 - 1). vals ! j \<ge> conf \<longrightarrow> vals ! j < b')"
    by fastforce
  have "fst (select_number conf vals) = d'"
    using m h by (simp add: select_number_def split: list.splits prod.splits)
  then show ?thesis using h by simp
qed

lemma select_number_fallback:
  assumes none: "\<forall>v \<in> set vals. v < conf"
  shows "(vals \<noteq> [] \<and> 0.35 \<le> Max (set vals) \<longrightarrow>
            1 \<le> fst (select_number conf vals) \<and> fst (select_number conf vals) \<le> int (length vals)
            \<and> vals ! nat (fst (select_number conf vals) - 1) = Max (set vals)
            \<and> (\<forall>j < nat (fst (select_number conf vals) - 1). vals ! j < Max (set vals)))
       \<and> (vals = [] \<or> Max (set vals) < 0.35 \<longrightarrow> fst (select_number conf vals) = 0)"
proof (cases vals)
  case Nil
  then show ?thesis by (simp add: select_number_def)
next
  case (Cons a rest)
  then obtain x xs where sc: "all_scores_from 0 vals = x # xs" by simp
  obtain bi bv where mx: "max_by_score x xs = (bi, bv)" by (cases "max_by_score x xs")
  have mem: "(bi, bv) \<in> set (all_scores_from 0 vals)"
    using max_by_score_mem[of x xs] sc mx by simp
  from all_scores_from_index[OF mem]
  have idx: "0 < bi" "bi \<le> int (length vals)" "vals ! nat (bi - 1) = bv" by simp_all
  have "nat (bi - 1) < length vals" using idx(1,2) by arith
  then have bv_in: "bv \<in> set vals" using idx(3) nth_mem by blast
  have "\<forall>v \<in> set vals. v \<le> bv"
  proof
    fix v assume "v \<in> set vals"
    then have "v \<in> snd ` set (all_scores_from 0 vals)"
      using all_scores_from_snd[of 0 vals] by (metis set_map)
    then have "v \<in> snd ` set (x # xs)" using sc by simp
    then obtain y where "y \<in> set (x # xs)" "snd y = v" by blast
    then show "v \<le> bv" using max_by_score_ge[of y x xs] mx by simp
  qed
  then have mxv: "Max (set vals) = bv" using bv_in by (simp add: Max_eqI)
  have m: "match_templates conf 0 vals (- 1, 0) = (- 1, 0)"
    using none by (simp add: match_templates_none)
  have sel: "fst (select_number conf vals) = (if bv \<ge> 0.35 then bi else 0)"
    using m sc mx by (simp add: select_number_def)
  show ?thesis using sel mxv idx Cons max_all_scores_first[OF sc mx] by auto
qed

text \<open>
  C4, as the code has it. Claim C4 says that a frame on which no template's best score
  reaches the confidence threshold or the floor 0.35 leaves a stored numeral \<open>n > 0\<close>
  as it is. That holds when the one-shot reset flag is not set. When the flag is set
  (\<open>run\<close> sets it on the step from RESET to FOUND), \<open>_detect_number\<close> first clears the
  numeral, so the same frame leaves 0.
\<close>

theorem C4_number_sticky_unless_reset_pending:
  assumes "\<forall>v \<in> set vals. v < number_conf cfg \<and> v < 0.35"
  shows "number (detect_number cfg vals s) = (if number_reset_flag s then 0 else number s)"
  using select_number_none[OF assms] by (simp add: detect_number_def)

theorem C4_number_sticky_witness:
  "number (detect_number example_mini_cfg [0.1, 0.2, 0.1] found_no_number) = 0
   \<and> number (detect_number example_mini_cfg [0.1, 0.2, 0.1] intercepting_two) = 2"
proof -
  have h: "\<forall>v \<in> set [0.1, 0.2, 0.1]. v < number_conf example_mini_cfg \<and> v < (0.35 :: real)"
    by (simp add: example_mini_cfg_def)
  show ?thesis
    using C4_number_sticky_unless_reset_pending[OF h, of found_no_number]
      C4_number_sticky_unless_reset_pending[OF h, of intercepting_two]
    by (simp add: example_defs)
qed

text \<open>
  C4, counterexample to the claim as stated: the first frame with a bar shows the
  numeral 2, which leaves FOUND with the numeral 2 stored and the reset flag pending;
  on the next patch no score reaches 0.8 or 0.35, and the numeral after detection is 0.
\<close>

theorem C4_pending_reset_clears_number:
  "run_observed example_mini_cfg (frame_numeral_two 120) NewMiniGame_init
     = (found_two_pending_reset, [], True)
   \<and> number found_two_pending_reset = 2
   \<and> number (detect_number example_mini_cfg [0.1, 0.2, 0.1] found_two_pending_reset) = 0"
  by (simp add: bar_defs example_defs found_two_pending_reset_def)

text \<open>No binary floating-point number is 0.35: its denominator has the factor 5.\<close>

lemma five_not_dvd_seven_times_power: "\<not> (5::int) dvd 7 * 2 ^ k"
proof
  assume "(5::int) dvd 7 * 2 ^ k"
  moreover have "coprime (5::int) (2 ^ k)" by (simp add: coprime_power_right_iff)
  ultimately have "(5::int) dvd 7" by (simp add: coprime_dvd_mult_left_iff)
  then show False by simp
qed

lemma float_value_not_floor: "float_value p \<noteq> 0.35"
proof
  assume "float_value p = 0.35"
  then have "real_of_int (fst p) * 20 = 7 * 2 ^ snd p"
    by (simp add: float_value_def field_simps)
  then have "real_of_int (fst p * 20) = real_of_int (7 * 2 ^ snd p)" by simp
  then have eq: "fst p * 20 = 7 * 2 ^ snd p" by (simp only: of_int_eq_iff)
  have "(5::int) dvd fst p * (5 * 4)" by (simp only: dvd_mult dvd_triv_left)
  then have "(5::int) dvd 7 * 2 ^ snd p" using eq by simp
  then show False using five_not_dvd_seven_times_power by blast
qed

lemma Max_float_values_not_floor:
  assumes "raw \<noteq> []"
  shows "Max (set (map float_value raw)) \<noteq> 0.35"
proof -
  have "Max (set (map float_value raw)) \<in> set (map float_value raw)"
    using assms by (intro Max_in) simp_all
  then obtain p where "Max (set (map float_value raw)) = float_value p" by auto
  then show ?thesis using float_value_not_floor by simp
qed

text \<open>
  At the number 0.35 itself the fallback selects: the comparison of the source is
  \<open>>=\<close>. No score is that number.
\<close>

lemma select_number_at_floor: "fst (select_number 0.8 [0.35, 0.1, 0.2]) = 1"
  by (simp add: select_number_def)

text \<open>
  C5. For every list of scores (binary floating-point numbers, of which those at or
  above the confidence threshold are above \<open>-1\<close>, the least value of a normalised
  correlation and the value \<open>best_score\<close> starts from), \<open>_detect_number\<close> selects: when
  some score is at or above the threshold, the first numeral whose score is highest
  among those; when none is, the first numeral with the highest score of all if that
  score exceeds 0.35, and nothing (0) if it does not or there is no score. The numeral
  of the score at position \<open>k\<close> is \<open>k + 1\<close>.
\<close>

theorem C5_selection_policy:
  assumes "vals = map float_value raw"
    and "\<forall>v \<in> set vals. conf \<le> v \<longrightarrow> - 1 < v"
  shows "((\<exists>v \<in> set vals. conf \<le> v) \<longrightarrow>
            1 \<le> fst (select_number conf vals) \<and> fst (select_number conf vals) \<le> int (length vals)
            \<and> conf \<le> vals ! nat (fst (select_number conf vals) - 1)
            \<and> (\<forall>v \<in> set vals. conf \<le> v \<longrightarrow> v \<le> vals ! nat (fst (select_number conf vals) - 1))
            \<and> (\<forall>j < nat (fst (select_number conf vals) - 1). conf \<le> vals ! j \<longrightarrow>
                  vals ! j < vals ! nat (fst (select_number conf vals) - 1)))
       \<and> ((\<forall>v \<in> set vals. v < conf) \<and> vals \<noteq> [] \<and> 0.35 < Max (set vals) \<longrightarrow>
            1 \<le> fst (select_number conf vals) \<and> fst (select_number conf vals) \<le> int (length vals)
            \<and> vals ! nat (fst (select_number conf vals) - 1) = Max (set vals)
            \<and> (\<forall>j < nat (fst (select_number conf vals) - 1). vals ! j < Max (set vals)))
       \<and> ((\<forall>v \<in> set vals. v < conf) \<and> (vals = [] \<or> Max (set vals) \<le> 0.35) \<longrightarrow>
            fst (select_number conf vals) = 0)"
proof -
  have ne: "vals \<noteq> [] \<longrightarrow> Max (set vals) \<noteq> 0.35"
    using Max_float_values_not_floor[of raw] assms(1) by auto
  have q: "(\<exists>v \<in> set vals. conf \<le> v) \<longrightarrow>
            1 \<le> fst (select_number conf vals) \<and> fst (select_number conf vals) \<le> int (length vals)
            \<and> conf \<le> vals ! nat (fst (select_number conf vals) - 1)
            \<and> (\<forall>v \<in> set vals. conf \<le> v \<longrightarrow> v \<le> vals ! nat (fst (select_number conf vals) - 1))
            \<and> (\<forall>j < nat (fst (select_number conf vals) - 1). conf \<le> vals ! j \<longrightarrow>
                  vals ! j < vals ! nat (fst (select_number conf vals) - 1))"
    using select_number_qualified[OF assms(2)] by blast
  have f: "(\<forall>v \<in> set vals. v < conf) \<and> vals \<noteq> [] \<and> 0.35 < Max (set vals) \<longrightarrow>
            1 \<le> fst (select_number conf vals) \<and> fst (select_number conf vals) \<le> int (length vals)
            \<and> vals ! nat (fst (select_number conf vals) - 1) = Max (set vals)
            \<and> (\<forall>j < nat (fst (select_number conf vals) - 1). vals ! j < Max (set vals))"
    using select_number_fallback[of vals conf] by simp
  have z: "(\<forall>v \<in> set vals. v < conf) \<and> (vals = [] \<or> Max (set vals) \<le> 0.35) \<longrightarrow>
            fst (select_number conf vals) = 0"
  proof
    assume h: "(\<forall>v \<in> set vals. v < conf) \<and> (vals = [] \<or> Max (set vals) \<le> 0.35)"
    then have "vals = [] \<or> Max (set vals) < 0.35" using ne by fastforce
    then show "fst (select_number conf vals) = 0"
      using h select_number_fallback[of vals conf] by blast
  qed
  from q f z show ?thesis by blast
qed

theorem C5_selection_policy_witness:
  "map float_value [(1, 2), (7, 3), (15, 4)] = [0.25, 0.875, 0.9375]
   \<and> fst (select_number 0.8 [0.25, 0.875, 0.9375]) = 3
   \<and> map float_value [(1, 2), (1, 1), (3, 3)] = [0.25, 0.5, 0.375]
   \<and> fst (select_number 0.8 [0.25, 0.5, 0.375]) = 2
   \<and> map float_value [(1, 2), (1, 3), (1, 4)] = [0.25, 0.125, 0.0625]
   \<and> fst (select_number 0.8 [0.25, 0.125, 0.0625]) = 0"
proof -
  have v1: "[0.25, 0.875, 0.9375] = map float_value [(1, 2), (7, 3), (15, 4)]"
    and v2: "[0.25, 0.5, 0.375] = map float_value [(1, 2), (1, 1), (3, 3)]"
    and v3: "[0.25, 0.125, 0.0625] = map float_value [(1, 2), (1, 3), (1, 4)]"
    by (simp_all add: float_value_def)
  have h1: "\<forall>v \<in> set [0.25, 0.875, 0.9375]. (0.8 :: real) \<le> v \<longrightarrow> - 1 < v"
    and h2: "\<forall>v \<in> set [0.25, 0.5, 0.375]. (0.8 :: real) \<le> v \<longrightarrow> - 1 < v"
    and h3: "\<forall>v \<in> set [0.25, 0.125, 0.0625]. (0.8 :: real) \<le> v \<longrightarrow> - 1 < v"
    by simp_all
  show ?thesis
    using C5_selection_policy[OF v1 h1] C5_selection_policy[OF v2 h2]
      C5_selection_policy[OF v3 h3]
    by (simp add: select_number_def float_value_def)
qed

section \<open>The bar recognizer's state machine\<close>

lemma run_detect_state: "state (run_detect cfg fr s) = state s"
  by (simp add: run_detect_def detect_number_def Let_def)

lemma run_detect_starting_area: "starting_area (run_detect cfg fr s) = starting_area s"
  by (simp add: run_detect_def detect_number_def Let_def)

text \<open>
  Where a frame of area 0 does reset the machine: from every state but FOUND with a
  starting area, and from FOUND when a numeral is stored and \<open>compare_dif\<close> is not
  negative (the key is then pressed on the way).
\<close>

lemma run_area_zero_resets:
  assumes "current_area fr = 0"
    and "\<not> (state s = FOUND \<and> starting_area s \<noteq> 0 \<and> (number s \<le> 0 \<or> compare_dif cfg < 0))"
  shows "state (fst (run_observed cfg fr s)) = RESET
         \<and> starting_area (fst (run_observed cfg fr s)) = 0
         \<and> number (fst (run_observed cfg fr s)) = 0"
  using assms
  by (auto simp: run_observed_def run_action_def run_transition_def run_detect_def Let_def)

text \<open>
  Where it does not: in FOUND with a starting area and no numeral stored, a frame of
  area 0 changes nothing but \<open>prev_area\<close>, and \<open>run\<close> returns True.
\<close>

lemma run_area_zero_found_without_number:
  assumes "state s = FOUND" and "starting_area s \<noteq> 0" and "number s = 0"
    and "current_area fr = 0"
  shows "run_observed cfg fr s = (s\<lparr>prev_area := 0\<rparr>, [], True)"
  using assms
  by (simp add: run_observed_def run_action_def run_transition_def run_detect_def Let_def)

text \<open>
  \<open>run\<close> never returns in INTERCEPTION with a numeral stored: the key press of the same
  step has reset the machine.
\<close>

lemma run_never_leaves_interception_armed:
  "\<not> (state (fst (run_observed cfg fr s)) = INTERCEPTION
       \<and> number (fst (run_observed cfg fr s)) \<noteq> 0)"
  by (simp add: run_observed_def run_action_def Let_def)

text \<open>
  C1, the code at the failing input. Claim C1 says that a frame of area 0 leaves the
  machine in RESET with \<open>starting_area = 0\<close> whatever the state before. In the
  \<open>if\<close>/\<open>elif\<close> chain of \<open>run\<close> the branch for FOUND comes first and is taken
  whenever \<open>starting_area\<close> is not 0, so the branch \<open>elif current_area == 0\<close> is never
  reached from FOUND: with no numeral stored the machine stays in FOUND and keeps its
  starting area. The state is reached from the initial one by two frames with an
  active bar and no legible numeral.
\<close>

theorem C1_area_zero_stays_in_FOUND:
  "run_frames example_mini_cfg [frame_no_numeral 120, frame_no_numeral 118] NewMiniGame_init
     = (found_no_number, [])
   \<and> run_observed example_mini_cfg (frame_no_numeral 0) found_no_number
     = (\<lparr>state = FOUND, starting_area = 120, prev_area = 0, number = 0,
         number_reset_flag = False\<rparr>, [], True)"
  by (simp add: bar_defs example_defs)

text \<open>
  C2. The chain of \<open>run\<close> moves the machine into INTERCEPTION only from FOUND, and only
  in a step where \<open>current_area / starting_area <= compare_dif\<close> and the numeral stored
  when the chain is evaluated (after this frame's detection pass) is positive. A step
  taken in FOUND with that numeral 0 on a frame whose area is not 0 ends in FOUND and
  presses no key. And a step that does not start in INTERCEPTION presses a key only
  under the same three conditions.
\<close>

theorem C2_interception_only_from_found_with_number:
  "(state (run_transition cfg (current_area fr) (run_detect cfg fr s)) = INTERCEPTION
      \<and> state s \<noteq> INTERCEPTION
    \<longrightarrow> state s = FOUND \<and> starting_area s \<noteq> 0
        \<and> real_of_int (current_area fr) / real_of_int (starting_area s) \<le> compare_dif cfg
        \<and> number (run_detect cfg fr s) > 0)
   \<and> (state s = FOUND \<and> number (run_detect cfg fr s) = 0 \<and> current_area fr \<noteq> 0
    \<longrightarrow> state (fst (run_observed cfg fr s)) = FOUND
        \<and> fst (snd (run_observed cfg fr s)) = [])
   \<and> (state s \<noteq> INTERCEPTION \<and> fst (snd (run_observed cfg fr s)) \<noteq> []
    \<longrightarrow> state s = FOUND \<and> starting_area s \<noteq> 0
        \<and> real_of_int (current_area fr) / real_of_int (starting_area s) \<le> compare_dif cfg
        \<and> number (run_detect cfg fr s) > 0)"
proof -
  let ?d = "run_detect cfg fr s"
  have st: "state ?d = state s" and sa: "starting_area ?d = starting_area s"
    by (rule run_detect_state, rule run_detect_starting_area)
  have a: "state (run_transition cfg (current_area fr) ?d) = INTERCEPTION
      \<and> state s \<noteq> INTERCEPTION
    \<longrightarrow> state s = FOUND \<and> starting_area s \<noteq> 0
        \<and> real_of_int (current_area fr) / real_of_int (starting_area s) \<le> compare_dif cfg
        \<and> number ?d > 0"
    using st sa by (auto simp: run_transition_def Let_def split: if_splits)
  have b: "state s = FOUND \<and> number ?d = 0 \<and> current_area fr \<noteq> 0
    \<longrightarrow> state (fst (run_observed cfg fr s)) = FOUND
        \<and> fst (snd (run_observed cfg fr s)) = []"
    using st sa by (auto simp: run_observed_def run_action_def run_transition_def Let_def)
  have "state (run_transition cfg (current_area fr) ?d) = INTERCEPTION"
    if "fst (snd (run_observed cfg fr s)) \<noteq> []"
    using that by (auto simp: run_observed_def run_action_def Let_def split: if_splits)
  then have c: "state s \<noteq> INTERCEPTION \<and> fst (snd (run_observed cfg fr s)) \<noteq> []
    \<longrightarrow> state s = FOUND \<and> starting_area s \<noteq> 0
        \<and> real_of_int (current_area fr) / real_of_int (starting_area s) \<le> compare_dif cfg
        \<and> number ?d > 0"
    using a by blast
  from a b c show ?thesis by blast
qed

theorem C2_interception_gate_witness:
  "state (run_transition example_mini_cfg 40
            (run_detect example_mini_cfg (frame_numeral_two 40) found_no_number)) = INTERCEPTION
   \<and> state found_no_number = FOUND
   \<and> real_of_int 40 / real_of_int (starting_area found_no_number) \<le> compare_dif example_mini_cfg
   \<and> number (run_detect example_mini_cfg (frame_numeral_two 40) found_no_number) = 2
   \<and> number (run_detect example_mini_cfg (frame_no_numeral 40) found_no_number) = 0
   \<and> state (fst (run_observed example_mini_cfg (frame_no_numeral 40) found_no_number)) = FOUND
   \<and> fst (snd (run_observed example_mini_cfg (frame_no_numeral 40) found_no_number)) = []"
  using C2_interception_only_from_found_with_number
          [of example_mini_cfg "frame_numeral_two 40" found_no_number]
        C2_interception_only_from_found_with_number
          [of example_mini_cfg "frame_no_numeral 40" found_no_number]
  by (simp add: bar_defs example_defs)

text \<open>
  A step that reaches the action test of \<open>run\<close> in INTERCEPTION with a numeral \<open>n > 0\<close>
  stored, from whatever state: one key, the one at index \<open>n - 1\<close> clamped to 0..3, the
  result True, and RESET with \<open>number = 0\<close> and \<open>starting_area = 0\<close>.
\<close>

lemma interception_presses_one_key:
  assumes "state (run_transition cfg (current_area fr) (run_detect cfg fr s)) = INTERCEPTION"
    and "number (run_transition cfg (current_area fr) (run_detect cfg fr s)) = n" and "n > 0"
  shows "snd (run_observed cfg fr s) = ([KeyPress (vk_keys ! nat (max 0 (min 3 (n - 1))))], True)
         \<and> state (fst (run_observed cfg fr s)) = RESET
         \<and> number (fst (run_observed cfg fr s)) = 0
         \<and> starting_area (fst (run_observed cfg fr s)) = 0"
  using assms by (simp add: run_observed_def run_action_def vk_keys_def)

lemma reset_presses_no_key:
  assumes "state s = RESET"
  shows "fst (snd (run_observed cfg fr s)) = []"
  using assms run_detect_state[of cfg fr s]
  by (auto simp: run_observed_def run_action_def run_transition_def Let_def)

text \<open>
  No call of \<open>run\<close> returns in INTERCEPTION when it did not start there: the chain enters
  INTERCEPTION only with a positive numeral, and the action test of the same call then
  presses the key and resets. So no run from the initial state ever starts a step in
  INTERCEPTION.
\<close>

lemma run_observed_not_interception:
  assumes "state s \<noteq> INTERCEPTION"
  shows "state (fst (run_observed cfg fr s)) \<noteq> INTERCEPTION"
  using assms run_detect_state[of cfg fr s]
  by (auto simp: run_observed_def run_action_def run_transition_def Let_def split: if_splits)

lemma run_frames_Cons_state:
  "fst (run_frames cfg (fr # frs) s) = fst (run_frames cfg frs (fst (run_observed cfg fr s)))"
  by (simp split: prod.splits)

lemma run_frames_not_interception:
  assumes "state s \<noteq> INTERCEPTION"
  shows "state (fst (run_frames cfg frs s)) \<noteq> INTERCEPTION"
  using assms
proof (induction frs arbitrary: s)
  case Nil
  then show ?case by simp
next
  case (Cons fr frs)
  have "state (fst (run_observed cfg fr s)) \<noteq> INTERCEPTION"
    using run_observed_not_interception[OF Cons.prems] .
  from Cons.IH[OF this] show ?case unfolding run_frames_Cons_state .
qed

text \<open>
  C3. Take any run of the recognizer from its initial state and its next step. If the
  step starts in INTERCEPTION with a stored numeral \<open>n > 0\<close>, or arrives in
  INTERCEPTION (the chain of this step leaves the machine there) with the numeral
  \<open>n > 0\<close> stored, then the step presses exactly one key, the one at index \<open>n - 1\<close>
  clamped to 0..3 of the four keys, returns True, and leaves RESET with \<open>number = 0\<close>
  and \<open>starting_area = 0\<close>; the step after it, on any frame, presses no key.
\<close>

theorem C3_interception_presses_one_key_and_resets:
  assumes "s = fst (run_frames cfg frs NewMiniGame_init)"
    and "n > 0"
    and "(state s = INTERCEPTION \<and> number s = n)
         \<or> (state (run_transition cfg (current_area fr) (run_detect cfg fr s)) = INTERCEPTION
              \<and> number (run_transition cfg (current_area fr) (run_detect cfg fr s)) = n)"
  shows "snd (run_observed cfg fr s) = ([KeyPress (vk_keys ! nat (max 0 (min 3 (n - 1))))], True)
         \<and> nat (max 0 (min 3 (n - 1))) < length vk_keys
         \<and> state (fst (run_observed cfg fr s)) = RESET
         \<and> number (fst (run_observed cfg fr s)) = 0
         \<and> starting_area (fst (run_observed cfg fr s)) = 0
         \<and> (\<forall>fr'. fst (snd (run_observed cfg fr' (fst (run_observed cfg fr s)))) = [])"
proof -
  have "state s \<noteq> INTERCEPTION"
    using run_frames_not_interception[of NewMiniGame_init cfg frs] assms(1)
    by (simp add: NewMiniGame_init_def)
  then have arrive:
    "state (run_transition cfg (current_area fr) (run_detect cfg fr s)) = INTERCEPTION"
    "number (run_transition cfg (current_area fr) (run_detect cfg fr s)) = n"
    using assms(3) by auto
  note one = interception_presses_one_key[OF arrive assms(2)]
  have idx: "nat (max 0 (min 3 (n - 1))) < length vk_keys"
    by (simp add: vk_keys_def)
  have "\<forall>fr'. fst (snd (run_observed cfg fr' (fst (run_observed cfg fr s)))) = []"
    using one reset_presses_no_key by blast
  then show ?thesis using one idx by blast
qed

theorem C3_interception_witness:
  "fst (run_frames example_mini_cfg [frame_no_numeral 120, frame_no_numeral 118]
          NewMiniGame_init) = found_no_number
   \<and> state (run_transition example_mini_cfg 40
               (run_detect example_mini_cfg (frame_numeral_two 40) found_no_number))
       = INTERCEPTION
   \<and> snd (run_observed example_mini_cfg (frame_numeral_two 40) found_no_number)
       = ([KeyPress VK_2], True)
   \<and> state (fst (run_observed example_mini_cfg (frame_numeral_two 40) found_no_number)) = RESET
   \<and> fst (snd (run_observed example_mini_cfg (frame_numeral_two 30)
        (fst (run_observed example_mini_cfg (frame_numeral_two 40) found_no_number)))) = []"
proof -
  have r: "found_no_number
      = fst (run_frames example_mini_cfg [frame_no_numeral 120, frame_no_numeral 118]
               NewMiniGame_init)"
    by (simp add: bar_defs example_defs)
  have pos: "(2::int) > 0" by simp
  have g: "(state found_no_number = INTERCEPTION \<and> number found_no_number = 2)
         \<or> (state (run_transition example_mini_cfg (current_area (frame_numeral_two 40))
                     (run_detect example_mini_cfg (frame_numeral_two 40) found_no_number))
               = INTERCEPTION
              \<and> number (run_transition example_mini_cfg (current_area (frame_numeral_two 40))
                     (run_detect example_mini_cfg (frame_numeral_two 40) found_no_number)) = 2)"
    by (simp add: bar_defs example_defs)
  show ?thesis
    using C3_interception_presses_one_key_and_resets[OF r pos g]
    by (simp add: bar_defs example_defs)
qed

section \<open>The box tracker\<close>

text \<open>
  The loop of \<open>_handle_boxes\<close> counts the success-coloured candidates, sets
  \<open>clickable\<close> when there is another one, and neither fills nor empties a slot.
\<close>

lemma refresh_slot_none:
  "(BoxNumber1 (refresh_slot k c b s) = None) = (BoxNumber1 s = None)"
  "(BoxNumber2 (refresh_slot k c b s) = None) = (BoxNumber2 s = None)"
  "(BoxNumber3 (refresh_slot k c b s) = None) = (BoxNumber3 s = None)"
  by (simp_all add: refresh_slot_def move_record_def)


lemma scan_boxes_count:
  "fst (scan_boxes cfg mc bs (n, c, s)) = n + count_success cfg mc bs"
  by (induction bs arbitrary: n c s)
     (auto simp: count_success_def box_color_def Let_def split: prod.splits)

lemma scan_boxes_clickable:
  "fst (snd (scan_boxes cfg mc bs (n, c, s)))
     = (c \<or> (\<exists>b \<in> set bs. box_color mc b \<noteq> cs_success_color cfg))"
  by (induction bs arbitrary: n c s)
     (auto simp: box_color_def Let_def split: prod.splits)

lemma scan_boxes_none:
  "(BoxNumber1 (snd (snd (scan_boxes cfg mc bs (n, c, s)))) = None) = (BoxNumber1 s = None)
   \<and> (BoxNumber2 (snd (snd (scan_boxes cfg mc bs (n, c, s)))) = None) = (BoxNumber2 s = None)
   \<and> (BoxNumber3 (snd (snd (scan_boxes cfg mc bs (n, c, s)))) = None) = (BoxNumber3 s = None)"
  by (induction bs arbitrary: n c s)
     (auto simp: Let_def refresh_slot_none split: prod.splits option.splits)


lemma handle_boxes_eq:
  "handle_boxes cfg mc boxes s =
     (let s' = snd (snd (scan_boxes cfg mc boxes (0, False, s)));
          n = count_success cfg mc boxes
      in if \<not> (\<exists>b \<in> set boxes. box_color mc b \<noteq> cs_success_color cfg) then (s', [], False)
         else (case (if n = 0 then BoxNumber1 s' else if n = 1 then BoxNumber2 s'
                     else if n = 2 then BoxNumber3 s' else None) of
                 Some r \<Rightarrow> (s', click_box cfg r, True)
               | None \<Rightarrow> (s', [], False)))"
proof -
  obtain n c s' where sc: "scan_boxes cfg mc boxes (0, False, s) = (n, c, s')"
    by (cases "scan_boxes cfg mc boxes (0, False, s)")
  have n: "n = count_success cfg mc boxes" using scan_boxes_count[of cfg mc boxes 0 False s] sc by simp
  have c: "c = (\<exists>b \<in> set boxes. box_color mc b \<noteq> cs_success_color cfg)"
    using scan_boxes_clickable[of cfg mc boxes 0 False s] sc by simp
  show ?thesis using sc n c by (simp add: handle_boxes_def Let_def)
qed

lemmas tracker_defs =
  handle_boxes_def update_number_box_def set_box_by_digit_def get_box_by_digit_def
  in_background_def int_half_plus_def find_matching_box_def has_color_def refresh_slot_def
  move_record_def click_box_def box_color_def count_success_def clicks_record_def

lemmas tracker_examples =
  example_cfg_def example_boxes_def example_dominant_def example_tracker_def
  empty_tracker_def

text \<open>
  C6. In a cycle with at least one candidate whose dominant colour is not the success
  colour, the success count of \<open>_handle_boxes\<close> is the number of success-coloured
  candidates; with 0, 1 or 2 of them the target is the record of slot 1, 2 or 3 (as the
  colour matching of this cycle has moved it). If the slot holds a record there is
  exactly one click, at the record's centre plus \<open>(region.left, region.top)\<close>, and the
  result is True; if the slot is empty there is no click and the result is False. A slot
  is empty after the loop exactly when it was empty before.
\<close>

theorem C6_click_target_by_success_count:
  assumes live: "\<exists>b \<in> set boxes. box_color mc b \<noteq> cs_success_color cfg"
  shows "fst (scan_boxes cfg mc boxes (0, False, s)) = count_success cfg mc boxes
     \<and> (count_success cfg mc boxes = 0 \<longrightarrow>
          clicks_record cfg (BoxNumber1 (fst (handle_boxes cfg mc boxes s)))
            (snd (handle_boxes cfg mc boxes s)))
     \<and> (count_success cfg mc boxes = 1 \<longrightarrow>
          clicks_record cfg (BoxNumber2 (fst (handle_boxes cfg mc boxes s)))
            (snd (handle_boxes cfg mc boxes s)))
     \<and> (count_success cfg mc boxes = 2 \<longrightarrow>
          clicks_record cfg (BoxNumber3 (fst (handle_boxes cfg mc boxes s)))
            (snd (handle_boxes cfg mc boxes s)))
     \<and> (BoxNumber1 (fst (handle_boxes cfg mc boxes s)) = None) = (BoxNumber1 s = None)
     \<and> (BoxNumber2 (fst (handle_boxes cfg mc boxes s)) = None) = (BoxNumber2 s = None)
     \<and> (BoxNumber3 (fst (handle_boxes cfg mc boxes s)) = None) = (BoxNumber3 s = None)"
proof -
  let ?s' = "snd (snd (scan_boxes cfg mc boxes (0, False, s)))"
  have st: "fst (handle_boxes cfg mc boxes s) = ?s'"
    by (simp add: handle_boxes_eq Let_def split: option.splits)
  have cnt: "fst (scan_boxes cfg mc boxes (0, False, s)) = count_success cfg mc boxes"
    using scan_boxes_count[of cfg mc boxes 0 False s] by simp
  have r0: "count_success cfg mc boxes = 0 \<longrightarrow>
          clicks_record cfg (BoxNumber1 ?s') (snd (handle_boxes cfg mc boxes s))"
    using live
    by (simp add: handle_boxes_eq Let_def clicks_record_def click_box_def split: option.splits)
  have r1: "count_success cfg mc boxes = 1 \<longrightarrow>
          clicks_record cfg (BoxNumber2 ?s') (snd (handle_boxes cfg mc boxes s))"
    using live
    by (simp add: handle_boxes_eq Let_def clicks_record_def click_box_def split: option.splits)
  have r2: "count_success cfg mc boxes = 2 \<longrightarrow>
          clicks_record cfg (BoxNumber3 ?s') (snd (handle_boxes cfg mc boxes s))"
    using live
    by (simp add: handle_boxes_eq Let_def clicks_record_def click_box_def split: option.splits)
  show ?thesis using st cnt r0 r1 r2 scan_boxes_none[of cfg mc boxes 0 False s] by simp
qed

theorem C6_click_target_witness:
  "snd (handle_boxes example_cfg example_dominant
          [\<lparr>digit = 0, box = (50, 0, 20, 20)\<rparr>] example_tracker) = ([Click 1008 509], True)
   \<and> snd (handle_boxes example_cfg example_dominant
          [\<lparr>digit = 0, box = (50, 0, 20, 20)\<rparr>] empty_tracker) = ([], False)
   \<and> snd (handle_boxes example_cfg example_dominant
          [\<lparr>digit = 0, box = (0, 0, 20, 20)\<rparr>, \<lparr>digit = 0, box = (50, 0, 20, 20)\<rparr>]
          example_tracker) = ([Click 1060 510], True)"
proof -
  have l1: "\<exists>b \<in> set [\<lparr>digit = 0, box = (50, 0, 20, 20)\<rparr>].
              box_color example_dominant b \<noteq> cs_success_color example_cfg"
    by (simp add: tracker_defs tracker_examples)
  have l2: "\<exists>b \<in> set [\<lparr>digit = 0, box = (0, 0, 20, 20)\<rparr>, \<lparr>digit = 0, box = (50, 0, 20, 20)\<rparr>].
              box_color example_dominant b \<noteq> cs_success_color example_cfg"
    by (simp add: tracker_defs tracker_examples)
  show ?thesis
    using C6_click_target_by_success_count[OF l1, of example_tracker]
      C6_click_target_by_success_count[OF l1, of empty_tracker]
      C6_click_target_by_success_count[OF l2, of example_tracker]
    by (simp add: tracker_defs tracker_examples Let_def)
qed

text \<open>
  C8, as the code has it. With three candidates of dominant colours \<open>[C1, C2, C1]\<close>,
  \<open>C1\<close> the success colour and \<open>C2\<close> another colour, both candidates of colour
  \<open>C1\<close> are counted: the success count is 2, and the target is the record of slot 3.
\<close>

theorem C8_two_successes_select_slot_three:
  assumes "box_color mc b1 = cs_success_color cfg"
    and "box_color mc b2 \<noteq> cs_success_color cfg"
    and "box_color mc b3 = cs_success_color cfg"
  shows "fst (scan_boxes cfg mc [b1, b2, b3] (0, False, s)) = 2
     \<and> clicks_record cfg (BoxNumber3 (fst (handle_boxes cfg mc [b1, b2, b3] s)))
            (snd (handle_boxes cfg mc [b1, b2, b3] s))"
proof -
  have n: "count_success cfg mc [b1, b2, b3] = 2" using assms by (simp add: count_success_def)
  have cnt: "fst (scan_boxes cfg mc [b1, b2, b3] (0, False, s)) = 2"
    using scan_boxes_count[of cfg mc "[b1, b2, b3]" 0 False s] n by simp
  have live: "\<exists>b \<in> set [b1, b2, b3]. box_color mc b \<noteq> cs_success_color cfg"
    using assms by simp
  have "clicks_record cfg (BoxNumber3 (fst (handle_boxes cfg mc [b1, b2, b3] s)))
            (snd (handle_boxes cfg mc [b1, b2, b3] s))"
    using live n
    by (simp add: handle_boxes_eq Let_def clicks_record_def click_box_def split: option.splits)
  then show ?thesis using cnt by simp
qed

theorem C8_two_successes_witness:
  "fst (scan_boxes example_cfg example_dominant example_boxes (0, False, empty_tracker)) = 2
   \<and> snd (handle_boxes example_cfg example_dominant example_boxes empty_tracker) = ([], False)
   \<and> snd (handle_boxes example_cfg example_dominant example_boxes
            (empty_tracker\<lparr>BoxNumber3 :=
               Some \<lparr>center = (108, 9), color = (0, 0, 200), bounds = (100, 0, 116, 18)\<rparr>\<rparr>))
       = ([Click 1108 509], True)"
proof -
  have c1: "box_color example_dominant \<lparr>digit = 0, box = (0, 0, 20, 20)\<rparr>
              = cs_success_color example_cfg"
    and c2: "box_color example_dominant \<lparr>digit = 0, box = (50, 0, 20, 20)\<rparr>
              \<noteq> cs_success_color example_cfg"
    and c3: "box_color example_dominant \<lparr>digit = 0, box = (100, 0, 20, 20)\<rparr>
              = cs_success_color example_cfg"
    by (simp_all add: tracker_defs tracker_examples)
  show ?thesis
    using C8_two_successes_select_slot_three[OF c1 c2 c3, of empty_tracker]
      C8_two_successes_select_slot_three[OF c1 c2 c3,
        of "empty_tracker\<lparr>BoxNumber3 :=
               Some \<lparr>center = (108, 9), color = (0, 0, 200), bounds = (100, 0, 116, 18)\<rparr>\<rparr>"]
    by (simp add: tracker_defs tracker_examples Let_def)
qed

text \<open>
  C8, counterexample to the claim as stated: the colours of the three candidates are
  \<open>[C1, C2, C1]\<close> with \<open>C1\<close> the success colour, the success count is 2 (not 1), and
  the click goes to the centre of slot 3's record (not to slot 2's, which the live
  candidate has just moved to \<open>(60, 10)\<close>).
\<close>

theorem C8_success_count_is_two:
  "map (box_color example_dominant) example_boxes = [(0, 255, 0), (255, 0, 0), (0, 255, 0)]
   \<and> cs_success_color example_cfg = (0, 255, 0)
   \<and> fst (scan_boxes example_cfg example_dominant example_boxes (0, False, example_tracker)) = 2
   \<and> map_option center
        (BoxNumber2 (fst (handle_boxes example_cfg example_dominant example_boxes example_tracker)))
       = Some (60, 10)
   \<and> snd (handle_boxes example_cfg example_dominant example_boxes example_tracker)
       = ([Click 1108 509], True)"
  by (simp add: tracker_defs tracker_examples Let_def)

text \<open>
  C10. With three or more success-coloured candidates \<open>_handle_boxes\<close> issues no click
  and returns False, whatever live candidates and slot records there are.
\<close>

theorem C10_three_successes_no_action:
  assumes "count_success cfg mc boxes \<ge> 3"
  shows "snd (handle_boxes cfg mc boxes s) = ([], False)"
  using assms by (simp add: handle_boxes_eq Let_def split: option.splits)

theorem C10_three_successes_witness:
  "count_success example_cfg example_dominant
       (example_boxes @ [\<lparr>digit = 0, box = (150, 0, 20, 20)\<rparr>]) = 3
   \<and> box_color example_dominant \<lparr>digit = 0, box = (50, 0, 20, 20)\<rparr> = (255, 0, 0)
   \<and> snd (handle_boxes example_cfg example_dominant
            (example_boxes @ [\<lparr>digit = 0, box = (150, 0, 20, 20)\<rparr>]) example_tracker)
       = ([], False)"
proof -
  have n: "count_success example_cfg example_dominant
       (example_boxes @ [\<lparr>digit = 0, box = (150, 0, 20, 20)\<rparr>]) \<ge> 3"
    by (simp add: tracker_defs tracker_examples)
  show ?thesis
    using C10_three_successes_no_action[OF n, of example_tracker]
    by (simp add: tracker_defs tracker_examples)
qed

section \<open>The main loop: the fail-safe timer and unavailable frames\<close>






text \<open>
  After a firing, \<open>last_no_detection\<close> is never below the time of that firing, so a
  later firing is more than the delay after it.
\<close>

lemma run_cycles_Cons:
  assumes "cycle cfg V c s = (s', evs, out)"
  shows "run_cycles cfg V (c # rest) s
           = (evs, out) # (if (\<exists>e. out = Raised e) then [] else run_cycles cfg V rest s')"
  using assms by (cases out) auto

lemma run_cycles_length: "length (run_cycles cfg V ins s) \<le> length ins"
proof (induction ins arbitrary: s)
  case Nil
  then show ?case by simp
next
  case (Cons c rest)
  obtain s' evs out where cy: "cycle cfg V c s = (s', evs, out)"
    by (cases "cycle cfg V c s")
  show ?case using run_cycles_Cons[OF cy, of rest] Cons.IH[of s'] by auto
qed























end
